theory Spec2Isabelle
  imports Complex_Main
begin

section \<open>Errors and Python slicing\<close>

text \<open>
  The exceptions that the modelled functions of \<^verbatim>\<open>tfts/datasets/get_data.py\<close> can
  raise, each with its message. A function that may raise returns \<open>error + 'a\<close>.

  Sequence lengths and example counts are natural numbers. The values of the series and of
  the sine curves are exact reals; the arithmetic of the split point is the float64
  arithmetic of Python, with its rounding. The calls of \<^verbatim>\<open>logging.info\<close> are left out:
  they do not change a result and raise nothing into the caller.
\<close>

datatype error = ValueError string | IndexError string | OverflowError string

text \<open>
  Python normalises the bounds of a slice \<^verbatim>\<open>a[start:stop]\<close> over a sequence of length
  \<open>n\<close>: a negative bound counts from the end, and every bound is clipped to \<open>0..n\<close>.
\<close>

definition py_index :: "nat \<Rightarrow> int \<Rightarrow> nat" where
  "py_index n i = (if i < 0 then nat (max 0 (i + int n)) else min (nat i) n)"

definition py_slice :: "int \<Rightarrow> int \<Rightarrow> 'a list \<Rightarrow> 'a list" where
  \<comment> \<open>\<^verbatim>\<open>a[start:stop]\<close>\<close>
  "py_slice start stop a =
     (let lo = py_index (length a) start; hi = py_index (length a) stop
      in take (hi - lo) (drop lo a))"

definition py_upto :: "int \<Rightarrow> 'a list \<Rightarrow> 'a list" where
  \<comment> \<open>\<^verbatim>\<open>a[:stop]\<close>\<close>
  "py_upto stop a = take (py_index (length a) stop) a"

definition py_from :: "int \<Rightarrow> 'a list \<Rightarrow> 'a list" where
  \<comment> \<open>\<^verbatim>\<open>a[start:]\<close>\<close>
  "py_from start a = drop (py_index (length a) start) a"

definition py_int :: "real \<Rightarrow> int" where
  \<comment> \<open>\<^verbatim>\<open>int(r)\<close> truncates towards zero.\<close>
  "py_int r = (if 0 \<le> r then \<lfloor>r\<rfloor> else \<lceil>r\<rceil>)"

section \<open>Array operations\<close>

text \<open>
  An array is the nested list of its rows. The series \<open>v\<close> of the air-passenger generator
  has shape \<open>(N, 1)\<close>: a list of \<open>N\<close> rows of one value each.

  \<^verbatim>\<open>np.roll(a, shift, axis=0)\<close> moves the row at position \<open>i\<close> to position
  \<open>(i + shift) mod n\<close>. Without an axis, \<^verbatim>\<open>np.roll(a, shift)\<close> flattens the array,
  rolls it and restores the shape, here the one column of \<open>v\<close>.
\<close>

definition roll :: "'a list \<Rightarrow> int \<Rightarrow> 'a list" where
  "roll a shift = (if a = [] then [] else rotate (nat ((- shift) mod int (length a))) a)"

definition roll_flat :: "'a list list \<Rightarrow> int \<Rightarrow> 'a list list" where
  "roll_flat a shift = map (\<lambda>e. [e]) (roll (concat a) shift)"

text \<open>
  \<^verbatim>\<open>np.stack(arrays, axis=1)\<close> of \<open>k\<close> arrays of \<open>n\<close> rows each has \<open>n\<close> rows of \<open>k\<close>
  entries: entry \<open>j\<close> of row \<open>i\<close> is row \<open>i\<close> of the \<open>j\<close>-th array. An empty list of
  arrays and arrays of different shapes raise \<^verbatim>\<open>ValueError\<close>.
\<close>

definition stack_axis1 :: "'a list list \<Rightarrow> error + 'a list list" where
  "stack_axis1 arrays =
     (case arrays of
        [] \<Rightarrow> Inl (ValueError ''need at least one array to stack'')
      | a # _ \<Rightarrow>
          if list_all (\<lambda>b. length b = length a) arrays
          then Inr (map (\<lambda>i. map (\<lambda>b. b ! i) arrays) [0..<length a])
          else Inl (ValueError ''all input arrays must have the same shape''))"

section \<open>Float arithmetic\<close>

text \<open>
  A Python \<^verbatim>\<open>float\<close> is an IEEE 754 binary64 number, and the result of an operation is the
  exact result rounded to the nearest such number, ties to the even significand. A number
  \<open>x\<close> with \<open>2 ^ e \<le> \<bar>x\<bar> < 2 ^ (e + 1)\<close> is rounded to a multiple of \<open>2 ^ (e - 52)\<close>, so
  that the significand has 53 bits; below \<open>2 ^ (- 1022)\<close> the numbers are subnormal, all
  multiples of \<open>2 ^ (- 1074)\<close>. A result of \<open>2 ^ 1024\<close> or more in absolute value is an
  infinity.
\<close>

fun bit_length :: "nat \<Rightarrow> nat" where
  \<comment> \<open>the number of binary digits, \<^verbatim>\<open>int.bit_length\<close>\<close>
  "bit_length n = (if n = 0 then 0 else Suc (bit_length (n div 2)))"

declare bit_length.simps [simp del]

definition pow2 :: "int \<Rightarrow> real" where
  "pow2 e = (if 0 \<le> e then 2 ^ nat e else 1 / 2 ^ nat (- e))"

definition round_half_even :: "real \<Rightarrow> int" where
  "round_half_even z =
     (let f = \<lfloor>z\<rfloor>
      in if z - of_int f < 1 / 2 then f
         else if 1 / 2 < z - of_int f then f + 1
         else if even f then f else f + 1)"

definition float64_exponent :: "real \<Rightarrow> int" where
  \<comment> \<open>for \<open>x > 0\<close>, the \<open>e\<close> with \<open>2 ^ e \<le> x < 2 ^ (e + 1)\<close>\<close>
  "float64_exponent x =
     (if 1 \<le> x then int (bit_length (nat \<lfloor>x\<rfloor>)) - 1
      else - int (bit_length (nat \<lceil>1 / x\<rceil> - 1)))"

definition float64_round :: "real \<Rightarrow> real" where
  \<comment> \<open>rounding to the nearest float64, with no bound on the exponent from above\<close>
  "float64_round x =
     (if x = 0 then 0
      else let e = max (float64_exponent \<bar>x\<bar>) (- 1022) - 52
           in sgn x * (of_int (round_half_even (\<bar>x\<bar> / pow2 e)) * pow2 e))"

definition float64 :: "real \<Rightarrow> real option" where
  \<comment> \<open>the float64 result of an operation with exact result \<open>x\<close>; \<open>None\<close> is an infinity\<close>
  "float64 x = (let r = float64_round x in if \<bar>r\<bar> < 2 ^ 1024 then Some r else None)"

definition float_of_nat :: "nat \<Rightarrow> error + real" where
  \<comment> \<open>the conversion of the \<^verbatim>\<open>int\<close> operand in \<^verbatim>\<open>n * f\<close>; it raises where the number is
      too large for a float\<close>
  "float_of_nat n =
     (case float64 (real n) of
        None \<Rightarrow> Inl (OverflowError ''int too large to convert to float'')
      | Some a \<Rightarrow> Inr a)"

section \<open>The train/validation split\<close>

text \<open>
  Both generators end with the same lines (76--83 and 119--126): with a positive
  \<open>test_size\<close> the examples are cut at \<^verbatim>\<open>int(n * (1 - test_size))\<close>, otherwise the pair of
  arrays is returned as it is. \<open>test_size\<close> is the value of the float that is passed. The
  difference \<^verbatim>\<open>1 - test_size\<close> of two floats is rounded (it is never an infinity: the largest
  float plus 1 rounds back to the largest float), \<open>n\<close> is converted to a float, the product
  is rounded, and \<^verbatim>\<open>int\<close> raises on an infinite product.
\<close>

datatype 'a dataset = Whole 'a 'a | TrainValid "'a \<times> 'a" "'a \<times> 'a"

definition train_valid_split ::
  "real \<Rightarrow> nat \<Rightarrow> 'a list \<Rightarrow> 'a list \<Rightarrow> error + 'a list dataset" where
  "train_valid_split test_size n x_array y_array =
     (if test_size > 0
      then (case float_of_nat n of
              Inl e \<Rightarrow> Inl e
            | Inr n_float \<Rightarrow>
                (case float64 (n_float * float64_round (1 - test_size)) of
                   None \<Rightarrow> Inl (OverflowError ''cannot convert float infinity to integer'')
                 | Some product \<Rightarrow>
                     let slice = py_int product;
                         x_train = py_upto slice x_array;
                         y_train = py_upto slice y_array;
                         x_valid = py_from slice x_array;
                         y_valid = py_from slice y_array
                     in Inr (TrainValid (x_train, y_train) (x_valid, y_valid))))
      else Inr (Whole x_array y_array))"

section \<open>The air-passenger generator\<close>

text \<open>
  A value of the normalised series: division by zero gives no finite value in numpy
  (\<^verbatim>\<open>nan\<close> or an infinity, with a warning and no exception).
\<close>

datatype fval = Finite real | NotFinite

definition fdiv :: "real \<Rightarrow> real \<Rightarrow> fval" where
  "fdiv a b = (if b = 0 then NotFinite else Finite (a / b))"

definition np_max :: "real list list \<Rightarrow> error + real" where
  "np_max a =
     (case concat a of
        [] \<Rightarrow> Inl (ValueError ''zero-size array to reduction operation maximum which has no identity'')
      | e # es \<Rightarrow> Inr (fold max es e))"

definition np_min :: "real list list \<Rightarrow> error + real" where
  "np_min a =
     (case concat a of
        [] \<Rightarrow> Inl (ValueError ''zero-size array to reduction operation minimum which has no identity'')
      | e # es \<Rightarrow> Inr (fold min es e))"

definition scale_series :: "real list list \<Rightarrow> error + fval list list" where
  \<comment> \<open>line 102: \<^verbatim>\<open>v = (v - np.max(v)) / (np.max(v) - np.min(v))\<close>\<close>
  "scale_series v =
     (case np_max v of
        Inl e \<Rightarrow> Inl e
      | Inr mx \<Rightarrow>
          (case np_min v of
             Inl e \<Rightarrow> Inl e
           | Inr mn \<Rightarrow> Inr (map (map (\<lambda>a. fdiv (a - mx) (mx - mn))) v)))"

definition x_rolls :: "'a list \<Rightarrow> nat \<Rightarrow> 'a list list" where
  \<comment> \<open>lines 106--108: the list \<open>x\<close> after the loop over \<^verbatim>\<open>range(1, train_sequence_length + 1)\<close>\<close>
  "x_rolls v train_sequence_length =
     fold (\<lambda>seq x. x @ [roll v (int seq)]) [1..<train_sequence_length + 1] []"

definition y_rolls :: "'a list list \<Rightarrow> nat \<Rightarrow> 'a list list list" where
  \<comment> \<open>lines 112--114: the list \<open>y\<close> after the loop over \<^verbatim>\<open>range(predict_sequence_length)\<close>\<close>
  "y_rolls v predict_sequence_length =
     fold (\<lambda>seq y. y @ [roll_flat v (- int seq)]) [0..<predict_sequence_length] []"

definition air_windows ::
  "'a list list \<Rightarrow> nat \<Rightarrow> nat \<Rightarrow> error + ('a list list list \<times> 'a list list list)" where
  \<comment> \<open>lines 104--116, on the series \<open>v\<close> of shape \<open>(N, 1)\<close>\<close>
  "air_windows v train_sequence_length predict_sequence_length =
     (case stack_axis1 (x_rolls v train_sequence_length) of
        Inl e \<Rightarrow> Inl e
      | Inr x_stacked \<Rightarrow>
          let x_array = map rev (py_slice (int train_sequence_length)
                                          (- int predict_sequence_length) x_stacked)
          in (case stack_axis1 (y_rolls v predict_sequence_length) of
                Inl e \<Rightarrow> Inl e
              | Inr y_stacked \<Rightarrow>
                  let y_array = py_slice (int train_sequence_length)
                                         (- int predict_sequence_length) y_stacked
                  in Inr (x_array, y_array)))"

definition air_arrays ::
  "real list \<Rightarrow> nat \<Rightarrow> nat \<Rightarrow> error + (fval list list list \<times> fval list list list)" where
  \<comment> \<open>lines 100--116. \<open>column\<close> is the second column of the CSV file, of which
      \<^verbatim>\<open>nrows=144\<close> keeps at most 144 rows and \<^verbatim>\<open>iloc[:, 1:2]\<close> makes rows of one value.\<close>
  "air_arrays column train_sequence_length predict_sequence_length =
     (let v = map (\<lambda>a. [a]) (take 144 column)
      in case scale_series v of
           Inl e \<Rightarrow> Inl e
         | Inr v' \<Rightarrow> air_windows v' train_sequence_length predict_sequence_length)"

definition get_air_passengers ::
  "real list \<Rightarrow> nat \<Rightarrow> nat \<Rightarrow> real \<Rightarrow> error + fval list list list dataset" where
  "get_air_passengers column train_sequence_length predict_sequence_length test_size =
     (case air_arrays column train_sequence_length predict_sequence_length of
        Inl e \<Rightarrow> Inl e
      | Inr (x_array, y_array) \<Rightarrow>
          train_valid_split test_size (length x_array) x_array y_array)"

section \<open>The sine generator\<close>

text \<open>
  \<^verbatim>\<open>np.linspace(start, stop, num)\<close>: \<open>num\<close> evenly spaced points from \<open>start\<close> to \<open>stop\<close>,
  both included; one point is \<open>start\<close>, no point is the empty array.
\<close>

definition linspace :: "real \<Rightarrow> real \<Rightarrow> nat \<Rightarrow> real list" where
  "linspace start stop num =
     (if num = 1 then [start]
      else map (\<lambda>i. start + real i * ((stop - start) / real (num - 1))) [0..<num])"

definition array_T :: "'a list list \<Rightarrow> 'a list list" where
  \<comment> \<open>\<^verbatim>\<open>a.T\<close> of a two-dimensional array given by its rows\<close>
  "array_T a = (case a of [] \<Rightarrow> [] | r # _ \<Rightarrow> map (\<lambda>j. map (\<lambda>row. row ! j) a) [0..<length r])"

definition sine_example :: "nat \<Rightarrow> nat \<Rightarrow> real \<Rightarrow> real list list \<times> real list list" where
  \<comment> \<open>lines 57--70, one pass of the loop body; \<open>u\<close> is the value of \<^verbatim>\<open>random.random()\<close>.
      The result is the pair of \<^verbatim>\<open>x_.T\<close> and \<^verbatim>\<open>y_.T\<close> (\<open>x_ch\<close> and \<open>y_ch\<close> below, transposed) that is appended to \<open>x\<close> and \<open>y\<close>.\<close>
  "sine_example train_sequence_length predict_sequence_length u =
     (let rand = u * 2 * pi;
          sig1 = map sin (linspace rand (3 * pi + rand)
                            (train_sequence_length + predict_sequence_length));
          sig2 = map cos (linspace rand (3 * pi + rand)
                            (train_sequence_length + predict_sequence_length));
          x1 = py_upto (int train_sequence_length) sig1;
          y1 = py_from (int train_sequence_length) sig1;
          x2 = py_upto (int train_sequence_length) sig2;
          y2 = py_from (int train_sequence_length) sig2;
          x_ch = [x1, x2];
          y_ch = [y1, y2]
      in (array_T x_ch, array_T y_ch))"

definition sine_examples ::
  "(nat \<Rightarrow> real) \<Rightarrow> nat \<Rightarrow> nat \<Rightarrow> nat \<Rightarrow> real list list list \<times> real list list list" where
  \<comment> \<open>lines 54--70: the lists \<open>x\<close> and \<open>y\<close> after the loop. \<open>random k\<close> is the value that
      the \<open>k\<close>-th call of \<^verbatim>\<open>random.random()\<close> returns.\<close>
  "sine_examples random train_sequence_length predict_sequence_length n_examples =
     fold (\<lambda>k (x, y).
             let (x_T, y_T) = sine_example train_sequence_length predict_sequence_length (random k)
             in (x @ [x_T], y @ [y_T]))
          [0..<n_examples] ([], [])"

definition first_channel :: "'a list list list \<Rightarrow> error + 'a list list list" where
  \<comment> \<open>lines 72--73: \<^verbatim>\<open>np.array(examples)[:, :, 0:1]\<close>. The array of an empty list has one
      dimension, and three indices on it raise \<^verbatim>\<open>IndexError\<close>.\<close>
  "first_channel examples =
     (if examples = []
      then Inl (IndexError ''too many indices for array: array is 1-dimensional, but 3 were indexed'')
      else Inr (map (map (py_slice 0 1)) examples))"

definition sine_arrays ::
  "(nat \<Rightarrow> real) \<Rightarrow> nat \<Rightarrow> nat \<Rightarrow> nat \<Rightarrow> error + (real list list list \<times> real list list list)" where
  \<comment> \<open>lines 54--73\<close>
  "sine_arrays random train_sequence_length predict_sequence_length n_examples =
     (case sine_examples random train_sequence_length predict_sequence_length n_examples of
        (x, y) \<Rightarrow>
          (case first_channel x of
             Inl e \<Rightarrow> Inl e
           | Inr x_array \<Rightarrow>
               (case first_channel y of
                  Inl e \<Rightarrow> Inl e
                | Inr y_array \<Rightarrow> Inr (x_array, y_array))))"

definition get_sine ::
  "(nat \<Rightarrow> real) \<Rightarrow> nat \<Rightarrow> nat \<Rightarrow> real \<Rightarrow> nat \<Rightarrow> error + real list list list dataset" where
  "get_sine random train_sequence_length predict_sequence_length test_size n_examples =
     (case sine_arrays random train_sequence_length predict_sequence_length n_examples of
        Inl e \<Rightarrow> Inl e
      | Inr (x_array, y_array) \<Rightarrow>
          train_valid_split test_size n_examples x_array y_array)"

section \<open>The stock fetcher\<close>

text \<open>
  The provider's answer to \<^verbatim>\<open>yf.download\<close> is an input of the model: the call either
  raises an \<^verbatim>\<open>Exception\<close>, of which \<open>Raises\<close> keeps the text \<^verbatim>\<open>str(e)\<close>, or returns a
  data frame. A data frame is empty when one of its axes has length 0.
\<close>

record dataframe =
  columns :: "string list"
  records :: "real list list"

definition df_empty :: "dataframe \<Rightarrow> bool" where
  "df_empty data \<longleftrightarrow> columns data = [] \<or> records data = []"

datatype provider_response = Raises string | Returns dataframe

definition download_checked :: "string \<Rightarrow> provider_response \<Rightarrow> string + dataframe" where
  \<comment> \<open>lines 137--146, the body of the \<^verbatim>\<open>try\<close>: \<open>Inl\<close> is the text of the exception raised in it\<close>
  "download_checked ticker response =
     (case response of
        Raises msg \<Rightarrow> Inl msg
      | Returns data \<Rightarrow>
          if df_empty data then Inl (''No data available for ticker: '' @ ticker)
          else Inr data)"

definition get_stock_data :: "string \<Rightarrow> provider_response \<Rightarrow> error + dataframe" where
  \<comment> \<open>lines 136--149: the \<^verbatim>\<open>except Exception\<close> clause wraps whatever the body raised\<close>
  "get_stock_data ticker response =
     (case download_checked ticker response of
        Inl msg \<Rightarrow> Inl (ValueError (''Error retrieving stock data: '' @ msg))
      | Inr data \<Rightarrow> Inr data)"

section \<open>Rolling and stacking\<close>

lemma length_roll [simp]: "length (roll a s) = length a"
  by (simp add: roll_def)

lemma roll_nth:
  assumes "i < length a"
  shows "roll a s ! i = a ! nat ((int i - s) mod int (length a))"
proof -
  let ?n = "length a"
  from assms have n: "0 < ?n" and ne: "a \<noteq> []" by auto
  have "roll a s ! i = a ! ((i + nat ((- s) mod int ?n)) mod ?n)"
    using assms ne by (simp add: roll_def nth_rotate add.commute)
  also have "(i + nat ((- s) mod int ?n)) mod ?n = nat ((int i - s) mod int ?n)"
  proof -
    have "int ((i + nat ((- s) mod int ?n)) mod ?n) = (int i + (- s) mod int ?n) mod int ?n"
      using n by (simp add: zmod_int)
    also have "\<dots> = (int i - s) mod int ?n"
      by (simp add: mod_add_right_eq)
    finally show ?thesis by linarith
  qed
  finally show ?thesis .
qed

lemma roll_nth_back:
  assumes "s \<le> i" "i < length a"
  shows "roll a (int s) ! i = a ! (i - s)"
proof -
  have "int i - int s = int (i - s)"
    using assms by (simp add: of_nat_diff)
  then have "nat ((int i - int s) mod int (length a)) = i - s"
    using assms by (simp only: nat_int zmod_int [symmetric]) simp
  then show ?thesis using assms by (simp only: roll_nth)
qed

lemma roll_nth_forth:
  assumes "i + s < length a"
  shows "roll a (- int s) ! i = a ! (i + s)"
proof -
  have "int i - (- int s) = int (i + s)"
    by simp
  then have "nat ((int i - (- int s)) mod int (length a)) = i + s"
    using assms by (simp only: nat_int zmod_int [symmetric]) simp
  moreover have "i < length a" using assms by simp
  ultimately show ?thesis by (simp only: roll_nth)
qed

lemma fold_snoc_map: "fold (\<lambda>k acc. acc @ [f k]) ks init = init @ map f ks"
  by (induction ks arbitrary: init) simp_all

lemma x_rolls_eq: "x_rolls v T = map (\<lambda>k. roll v (int (Suc k))) [0..<T]"
proof -
  have "[1..<T + 1] = map Suc [0..<T]"
    by (simp add: map_Suc_upt del: upt_Suc)
  then have "x_rolls v T = map (\<lambda>seq. roll v (int seq)) (map Suc [0..<T])"
    by (simp only: x_rolls_def fold_snoc_map append_Nil)
  then show ?thesis by (simp only: map_map comp_def)
qed

lemma y_rolls_eq: "y_rolls v P = map (\<lambda>seq. roll_flat v (- int seq)) [0..<P]"
  by (simp add: y_rolls_def fold_snoc_map)

lemma roll_map: "roll (map f a) s = map f (roll a s)"
  by (simp add: roll_def rotate_map)

lemma set_roll: "set (roll a s) = set a"
  by (simp add: roll_def)

lemma one_column_concat:
  assumes "\<forall>r \<in> set v. length r = 1"
  shows "concat v = map hd v"
  using assms
proof (induction v)
  case Nil
  then show ?case by simp
next
  case (Cons r v)
  then obtain e where "r = [e]" by (cases r) auto
  with Cons show ?case by simp
qed

lemma one_column_rows:
  assumes "\<forall>r \<in> set v. length r = 1"
  shows "map (\<lambda>e. [e]) (map hd v) = v"
  using assms
proof (induction v)
  case Nil
  then show ?case by simp
next
  case (Cons r v)
  then obtain e where "r = [e]" by (cases r) auto
  with Cons show ?case by simp
qed

lemma roll_flat_one_column:
  assumes "\<forall>r \<in> set v. length r = 1"
  shows "roll_flat v s = roll v s"
proof -
  have "roll_flat v s = map (\<lambda>e. [e]) (map hd (roll v s))"
    using assms by (simp add: roll_flat_def one_column_concat roll_map)
  also have "\<dots> = roll v s"
    using assms by (intro one_column_rows) (simp add: set_roll)
  finally show ?thesis .
qed

lemma stack_axis1_Inr:
  assumes "arrays \<noteq> []" "\<forall>b \<in> set arrays. length b = n"
  shows "stack_axis1 arrays = Inr (map (\<lambda>i. map (\<lambda>b. b ! i) arrays) [0..<n])"
  using assms by (cases arrays) (auto simp: stack_axis1_def list_all_iff)

lemma map_upt_shift: "map g [a..<a + k] = map (\<lambda>i. g (i + a)) [0..<k]"
  by (induction k) (simp_all add: add.commute)

lemma py_slice_rows:
  assumes "0 < P"
  shows "py_slice (int T) (- int P) (map g [0..<N]) = map (\<lambda>i. g (i + T)) [0..<N - T - P]"
proof -
  have lo: "py_index N (int T) = min T N"
    by (simp add: py_index_def)
  have hi: "py_index N (- int P) = N - P"
    using assms by (simp add: py_index_def)
  have "py_slice (int T) (- int P) (map g [0..<N]) = map g (take (N - P - min T N) [min T N..<N])"
    by (simp add: py_slice_def lo hi Let_def take_map drop_map)
  also have "take (N - P - min T N) [min T N..<N] = [min T N..<min T N + (N - T - P)]"
    by (simp add: take_upt min_def add.commute)
  also have "map g \<dots> = map (\<lambda>i. g (i + T)) [0..<N - T - P]"
  proof (cases "T \<le> N")
    case True
    then show ?thesis by (simp add: min_def map_upt_shift)
  next
    case False
    then show ?thesis by simp
  qed
  finally show ?thesis .
qed


lemma x_window:
  assumes "i + T < length v"
  shows "rev (map (\<lambda>b. b ! (i + T)) (x_rolls v T)) = take T (drop i v)"
proof (rule nth_equalityI)
  show "length (rev (map (\<lambda>b. b ! (i + T)) (x_rolls v T))) = length (take T (drop i v))"
    using assms by (simp add: x_rolls_eq)
next
  fix j
  assume "j < length (rev (map (\<lambda>b. b ! (i + T)) (x_rolls v T)))"
  then have j: "j < T" by (simp add: x_rolls_eq)
  have "rev (map (\<lambda>b. b ! (i + T)) (x_rolls v T)) ! j
          = roll v (int (T - j)) ! (i + T)"
    using j by (simp add: x_rolls_eq rev_nth Suc_diff_Suc)
  also have "\<dots> = v ! (i + T - (T - j))"
    using assms j by (intro roll_nth_back) simp_all
  also have "i + T - (T - j) = i + j"
    using j by simp
  finally show "rev (map (\<lambda>b. b ! (i + T)) (x_rolls v T)) ! j = take T (drop i v) ! j"
    using assms j by simp
qed

lemma y_window:
  assumes "\<forall>r \<in> set v. length r = 1" "i + T + P \<le> length v" "0 < P"
  shows "map (\<lambda>b. b ! (i + T)) (y_rolls v P) = take P (drop (i + T) v)"
proof (rule nth_equalityI)
  show "length (map (\<lambda>b. b ! (i + T)) (y_rolls v P)) = length (take P (drop (i + T) v))"
    using assms by (simp add: y_rolls_eq)
next
  fix j
  assume "j < length (map (\<lambda>b. b ! (i + T)) (y_rolls v P))"
  then have j: "j < P" by (simp add: y_rolls_eq)
  have "map (\<lambda>b. b ! (i + T)) (y_rolls v P) ! j = roll v (- int j) ! (i + T)"
    using j assms(1) by (simp add: y_rolls_eq roll_flat_one_column)
  also have "\<dots> = v ! (i + T + j)"
    using assms j by (intro roll_nth_forth) simp
  finally show "map (\<lambda>b. b ! (i + T)) (y_rolls v P) ! j = take P (drop (i + T) v) ! j"
    using assms j by simp
qed

lemma air_windows_eq:
  assumes "\<forall>r \<in> set v. length r = 1" "0 < T" "0 < P"
  shows "air_windows v T P =
           Inr (map (\<lambda>i. take T (drop i v)) [0..<length v - T - P],
                map (\<lambda>i. take P (drop (i + T) v)) [0..<length v - T - P])"
proof -
  let ?N = "length v"
  have sx: "stack_axis1 (x_rolls v T) = Inr (map (\<lambda>i. map (\<lambda>b. b ! i) (x_rolls v T)) [0..<?N])"
    using assms(2) by (intro stack_axis1_Inr) (auto simp: x_rolls_eq)
  have sy: "stack_axis1 (y_rolls v P) = Inr (map (\<lambda>i. map (\<lambda>b. b ! i) (y_rolls v P)) [0..<?N])"
    using assms(1,3) by (intro stack_axis1_Inr) (auto simp: y_rolls_eq roll_flat_one_column)
  have x: "map rev (py_slice (int T) (- int P) (map (\<lambda>i. map (\<lambda>b. b ! i) (x_rolls v T)) [0..<?N]))
             = map (\<lambda>i. take T (drop i v)) [0..<?N - T - P]"
    using assms(3) by (simp add: py_slice_rows x_window)
  have y: "py_slice (int T) (- int P) (map (\<lambda>i. map (\<lambda>b. b ! i) (y_rolls v P)) [0..<?N])
             = map (\<lambda>i. take P (drop (i + T) v)) [0..<?N - T - P]"
    using assms(1,3) by (simp add: py_slice_rows y_window)
  show ?thesis
    by (simp only: air_windows_def sx sy x y sum.case Let_def)
qed

lemma air_windows_no_train:
  "\<exists>m. air_windows v 0 P = Inl (ValueError m)"
  by (simp add: air_windows_def x_rolls_def stack_axis1_def)

lemma air_windows_no_predict:
  "\<exists>m. air_windows v T 0 = Inl (ValueError m)"
  by (cases "stack_axis1 (x_rolls v T)")
     (auto simp: air_windows_def y_rolls_def stack_axis1_def Let_def split: list.splits if_splits)

section \<open>The sine examples\<close>

lemma py_upto_nat [simp]: "py_upto (int k) a = take k a"
  by (simp add: py_upto_def py_index_def min_def)

lemma py_from_nat [simp]: "py_from (int k) a = drop k a"
  by (simp add: py_from_def py_index_def min_def)

lemma py_slice_first: "py_slice 0 1 [a, b] = [a]"
  by (simp add: py_slice_def py_index_def)

lemma length_linspace [simp]: "length (linspace a b n) = n"
  by (simp add: linspace_def)

lemma sine_example_eq:
  "sine_example T P u =
     (map (\<lambda>t. [sin t, cos t]) (take T (linspace (u * 2 * pi) (3 * pi + u * 2 * pi) (T + P))),
      map (\<lambda>t. [sin t, cos t]) (drop T (linspace (u * 2 * pi) (3 * pi + u * 2 * pi) (T + P))))"
proof -
  let ?ts = "linspace (u * 2 * pi) (3 * pi + u * 2 * pi) (T + P)"
  have x: "array_T [take T (map sin ?ts), take T (map cos ?ts)] = map (\<lambda>t. [sin t, cos t]) (take T ?ts)"
    by (rule nth_equalityI) (simp_all add: array_T_def)
  have y: "array_T [drop T (map sin ?ts), drop T (map cos ?ts)] = map (\<lambda>t. [sin t, cos t]) (drop T ?ts)"
    by (rule nth_equalityI) (simp_all add: array_T_def)
  show ?thesis
    by (simp add: sine_example_def Let_def x y)
qed

lemma fold_snoc_pair:
  "fold (\<lambda>k (x, y). case f k of (a, b) \<Rightarrow> (x @ [a], y @ [b])) ks (x0, y0) =
     (x0 @ map (\<lambda>k. fst (f k)) ks, y0 @ map (\<lambda>k. snd (f k)) ks)"
  by (induction ks arbitrary: x0 y0) (simp_all add: case_prod_beta)

lemma sine_examples_eq:
  "sine_examples random T P n =
     (map (\<lambda>k. fst (sine_example T P (random k))) [0..<n],
      map (\<lambda>k. snd (sine_example T P (random k))) [0..<n])"
  using fold_snoc_pair [of "\<lambda>k. sine_example T P (random k)" "[0..<n]" "[]" "[]"]
  by (simp add: sine_examples_def)

lemma sine_arrays_eq:
  assumes "0 < n"
  shows "sine_arrays random T P n =
     Inr (map (\<lambda>k. map (\<lambda>t. [sin t])
                 (take T (linspace (random k * 2 * pi) (3 * pi + random k * 2 * pi) (T + P)))) [0..<n],
          map (\<lambda>k. map (\<lambda>t. [sin t])
                 (drop T (linspace (random k * 2 * pi) (3 * pi + random k * 2 * pi) (T + P)))) [0..<n])"
  using assms
  by (simp add: sine_arrays_def sine_examples_eq first_channel_def sine_example_eq
      py_slice_first)

lemma sine_arrays_none:
  "sine_arrays random T P 0 =
     Inl (IndexError ''too many indices for array: array is 1-dimensional, but 3 were indexed'')"
  by (simp add: sine_arrays_def sine_examples_def first_channel_def)

lemma sine_arrays_Inr:
  assumes "sine_arrays random T P n = Inr (x, y)"
  shows "0 < n"
  using assms by (cases n) (simp_all add: sine_arrays_none)

section \<open>The arrays of the air-passenger generator\<close>

lemma scale_series_Inr:
  assumes "scale_series v = Inr w"
  obtains mx mn where "np_max v = Inr mx" "np_min v = Inr mn"
    "w = map (map (\<lambda>a. fdiv (a - mx) (mx - mn))) v"
  using assms by (auto simp: scale_series_def split: sum.splits)

lemma scale_series_one_column:
  assumes "scale_series (map (\<lambda>a. [a]) col) = Inr w"
  shows "\<forall>r \<in> set w. length r = 1" and "length w = length col"
  using assms by (auto elim!: scale_series_Inr)

lemma scale_series_total:
  assumes "col \<noteq> []"
  shows "\<exists>w. scale_series (map (\<lambda>a. [a]) col) = Inr w"
proof -
  obtain c cs where "col = c # cs" using assms by (cases col) auto
  then show ?thesis
    by (simp add: scale_series_def np_max_def np_min_def)
qed

lemma air_windows_Inr:
  assumes "air_windows v T P = Inr (x, y)"
  shows "0 < T" and "0 < P"
proof -
  show "0 < T"
    using assms air_windows_no_train [of v P] by (cases T) auto
  show "0 < P"
    using assms air_windows_no_predict [of v T] by (cases P) auto
qed

lemma air_arrays_Inr:
  assumes "air_arrays column T P = Inr (x, y)"
  obtains v where "scale_series (map (\<lambda>a. [a]) (take 144 column)) = Inr v"
    and "length v = min (length column) 144"
    and "0 < T" and "0 < P"
    and "x = map (\<lambda>i. take T (drop i v)) [0..<length v - T - P]"
    and "y = map (\<lambda>i. take P (drop (i + T) v)) [0..<length v - T - P]"
proof -
  from assms obtain v where v: "scale_series (map (\<lambda>a. [a]) (take 144 column)) = Inr v"
    and w: "air_windows v T P = Inr (x, y)"
    by (auto simp: air_arrays_def Let_def split: sum.splits)
  have one: "\<forall>r \<in> set v. length r = 1" and len: "length v = min (length column) 144"
    using scale_series_one_column [OF v] by simp_all
  have T: "0 < T" and P: "0 < P"
    using air_windows_Inr [OF w] by simp_all
  have "x = map (\<lambda>i. take T (drop i v)) [0..<length v - T - P]"
    and "y = map (\<lambda>i. take P (drop (i + T) v)) [0..<length v - T - P]"
    using w air_windows_eq [OF one T P] by simp_all
  with v len T P show ?thesis by (rule that)
qed

lemma air_arrays_total:
  assumes "column \<noteq> []" "0 < T" "0 < P"
  obtains v where "scale_series (map (\<lambda>a. [a]) (take 144 column)) = Inr v"
    and "length v = min (length column) 144"
    and "air_arrays column T P =
           Inr (map (\<lambda>i. take T (drop i v)) [0..<length v - T - P],
                map (\<lambda>i. take P (drop (i + T) v)) [0..<length v - T - P])"
proof -
  have "take 144 column \<noteq> []" using assms(1) by (cases column) simp_all
  then obtain v where v: "scale_series (map (\<lambda>a. [a]) (take 144 column)) = Inr v"
    using scale_series_total by blast
  have one: "\<forall>r \<in> set v. length r = 1" and len: "length v = min (length column) 144"
    using scale_series_one_column [OF v] by simp_all
  have "air_arrays column T P = air_windows v T P"
    by (simp add: air_arrays_def v)
  then have "air_arrays column T P =
           Inr (map (\<lambda>i. take T (drop i v)) [0..<length v - T - P],
                map (\<lambda>i. take P (drop (i + T) v)) [0..<length v - T - P])"
    by (simp only: air_windows_eq [OF one assms(2,3)])
  with v len show ?thesis by (rule that)
qed

section \<open>Rounding to float64\<close>

lemma bit_length_le: "n < 2 ^ k \<Longrightarrow> bit_length n \<le> k"
proof (induction n arbitrary: k rule: bit_length.induct)
  case (1 n)
  show ?case
  proof (cases "n = 0")
    case True
    then show ?thesis by (simp add: bit_length.simps)
  next
    case False
    with "1.prems" obtain j where k: "k = Suc j" by (cases k) auto
    have "n div 2 < 2 ^ j"
      using "1.prems" k by auto
    then have "bit_length (n div 2) \<le> j"
      using "1.IH" [OF False] by simp
    then show ?thesis
      using False k by (simp add: bit_length.simps [of n])
  qed
qed

lemma float64_exponent_less:
  assumes "0 < x" "x < 2 ^ k" "0 < k"
  shows "float64_exponent x \<le> int k - 1"
proof (cases "1 \<le> x")
  case True
  have "\<lfloor>x\<rfloor> < 2 ^ k"
    using assms(2) by (simp add: floor_less_iff)
  moreover have "0 \<le> \<lfloor>x\<rfloor>"
    using True by simp
  ultimately have "nat \<lfloor>x\<rfloor> < 2 ^ k"
    by (simp add: nat_less_iff)
  then have "bit_length (nat \<lfloor>x\<rfloor>) \<le> k"
    by (rule bit_length_le)
  then show ?thesis
    using True by (simp add: float64_exponent_def)
next
  case False
  then show ?thesis
    using assms(3) by (simp add: float64_exponent_def)
qed

lemma pow2_pos [simp]: "0 < pow2 e"
  by (simp add: pow2_def)

lemma round_half_even_nonneg: "0 \<le> z \<Longrightarrow> 0 \<le> round_half_even z"
  by (simp add: round_half_even_def Let_def)

lemma round_half_even_le:
  assumes "z \<le> of_int m"
  shows "round_half_even z \<le> m"
proof -
  have f: "\<lfloor>z\<rfloor> \<le> m"
    using assms by (simp add: floor_le_iff)
  have "\<lfloor>z\<rfloor> + 1 \<le> m" if "1 / 2 \<le> z - of_int \<lfloor>z\<rfloor>"
  proof (rule ccontr)
    assume "\<not> \<lfloor>z\<rfloor> + 1 \<le> m"
    with f have "\<lfloor>z\<rfloor> = m" by simp
    then have "z - of_int \<lfloor>z\<rfloor> \<le> 0" using assms by simp
    with that show False by simp
  qed
  with f show ?thesis
    by (auto simp: round_half_even_def Let_def)
qed

lemma float64_round_pos:
  assumes "0 < x"
  shows "float64_round x =
           of_int (round_half_even (x / pow2 (max (float64_exponent x) (- 1022) - 52))) *
           pow2 (max (float64_exponent x) (- 1022) - 52)"
  using assms by (simp add: float64_round_def Let_def)

lemma float64_round_nonneg:
  assumes "0 \<le> x"
  shows "0 \<le> float64_round x"
proof (cases "x = 0")
  case True
  then show ?thesis by (simp add: float64_round_def)
next
  case False
  with assms have x: "0 < x" by simp
  have "0 \<le> x / pow2 (max (float64_exponent x) (- 1022) - 52)"
    using x by (simp add: less_imp_le)
  then have "0 \<le> round_half_even (x / pow2 (max (float64_exponent x) (- 1022) - 52))"
    by (rule round_half_even_nonneg)
  then show ?thesis
    by (simp add: float64_round_pos [OF x] less_imp_le)
qed

lemma float64_round_le:
  assumes "0 < x" "x \<le> B"
    and "B = of_int m * pow2 (max (float64_exponent x) (- 1022) - 52)"
  shows "float64_round x \<le> B"
proof -
  let ?q = "pow2 (max (float64_exponent x) (- 1022) - 52)"
  have "x / ?q \<le> of_int m"
    using assms(2,3) by (simp add: pos_divide_le_eq)
  then have "round_half_even (x / ?q) \<le> m"
    by (rule round_half_even_le)
  then have "of_int (round_half_even (x / ?q)) * ?q \<le> of_int m * ?q"
    by (simp add: less_imp_le)
  then show ?thesis
    by (simp add: float64_round_pos [OF assms(1)] assms(3))
qed

lemma pow2_nat_multiple:
  assumes "e \<le> 0"
  shows "real K = of_int (int K * 2 ^ nat (- e)) * pow2 e"
  using assms by (simp add: pow2_def)

lemma pow2_power_multiple:
  assumes "e \<le> int k"
  shows "\<exists>m. (2::real) ^ k = of_int m * pow2 e"
proof (cases "e \<le> 0")
  case True
  have "real (2 ^ k) = of_int (int (2 ^ k) * 2 ^ nat (- e)) * pow2 e"
    using True by (rule pow2_nat_multiple)
  then show ?thesis by (metis of_nat_numeral of_nat_power)
next
  case False
  then have "nat e \<le> k" using assms by simp
  then have "(2::real) ^ k = 2 ^ (k - nat e) * 2 ^ nat e"
    by (simp add: power_add [symmetric])
  also have "\<dots> = of_int (2 ^ (k - nat e)) * pow2 e"
    using False by (simp add: pow2_def)
  finally show ?thesis by blast
qed

lemma float64_round_le_power:
  assumes "0 \<le> x" "x \<le> 2 ^ k"
  shows "float64_round x \<le> 2 ^ k"
proof (cases "x = 0")
  case True
  then show ?thesis by (simp add: float64_round_def)
next
  case False
  with assms(1) have x: "0 < x" by simp
  have "x < 2 ^ Suc k"
    using assms(2) by (simp add: less_le_trans [OF _ power_increasing [of k "Suc k" "2::real"]] 
        le_less_trans [of x "2 ^ k" "2 * 2 ^ k"])
  then have "float64_exponent x \<le> int (Suc k) - 1"
    using x by (intro float64_exponent_less) simp_all
  then have "max (float64_exponent x) (- 1022) - 52 \<le> int k"
    by simp
  then obtain m where "(2::real) ^ k = of_int m * pow2 (max (float64_exponent x) (- 1022) - 52)"
    using pow2_power_multiple by blast
  with x assms(2) show ?thesis
    by (rule float64_round_le)
qed


section \<open>The split\<close>

lemma py_upto_floor:
  assumes "0 \<le> r"
  shows "py_upto \<lfloor>r\<rfloor> a = take (nat \<lfloor>r\<rfloor>) a"
  using assms by (simp add: py_upto_def py_index_def min_def)

lemma py_from_floor:
  assumes "0 \<le> r"
  shows "py_from \<lfloor>r\<rfloor> a = drop (nat \<lfloor>r\<rfloor>) a"
  using assms by (simp add: py_from_def py_index_def min_def)

lemma split_product_bounds:
  assumes "0 < test_size" "test_size \<le> 1" "n < 2 ^ 63"
  shows "0 \<le> float64_round (real n)" and "float64_round (real n) \<le> 2 ^ 63"
    and "0 \<le> float64_round (1 - test_size)" and "float64_round (1 - test_size) \<le> 1"
    and "0 \<le> float64_round (float64_round (real n) * float64_round (1 - test_size))"
    and "float64_round (float64_round (real n) * float64_round (1 - test_size)) \<le> 2 ^ 63"
proof -
  let ?a = "float64_round (real n)" and ?r = "float64_round (1 - test_size)"
  show a0: "0 \<le> ?a"
    by (rule float64_round_nonneg) simp
  have "real n \<le> 2 ^ 63"
    using assms(3) by (metis less_imp_le of_nat_le_iff of_nat_numeral of_nat_power)
  then show a1: "?a \<le> 2 ^ 63"
    by (intro float64_round_le_power) simp_all
  show r0: "0 \<le> ?r"
    using assms(2) by (intro float64_round_nonneg) simp
  have "float64_round (1 - test_size) \<le> 2 ^ 0"
    using assms(1,2) by (intro float64_round_le_power) simp_all
  then show r1: "?r \<le> 1" by simp
  have p0: "0 \<le> ?a * ?r"
    using a0 r0 by simp
  then show "0 \<le> float64_round (?a * ?r)"
    by (rule float64_round_nonneg)
  have "?a * ?r \<le> ?a * 1"
    using a0 r1 by (intro mult_left_mono) simp_all
  with a1 have "?a * ?r \<le> 2 ^ 63" by simp
  with p0 show "float64_round (?a * ?r) \<le> 2 ^ 63"
    by (rule float64_round_le_power)
qed

lemma train_valid_split_eq:
  assumes "0 < test_size" "test_size \<le> 1" "n < 2 ^ 63"
  shows "train_valid_split test_size n x y =
           Inr (TrainValid
                  (take (nat \<lfloor>float64_round (float64_round (real n) * float64_round (1 - test_size))\<rfloor>) x,
                   take (nat \<lfloor>float64_round (float64_round (real n) * float64_round (1 - test_size))\<rfloor>) y)
                  (drop (nat \<lfloor>float64_round (float64_round (real n) * float64_round (1 - test_size))\<rfloor>) x,
                   drop (nat \<lfloor>float64_round (float64_round (real n) * float64_round (1 - test_size))\<rfloor>) y))"
proof -
  let ?a = "float64_round (real n)" and ?r = "float64_round (1 - test_size)"
  let ?p = "float64_round (?a * ?r)"
  note b = split_product_bounds [OF assms]
  have big: "(2::real) ^ 63 < 2 ^ 1024" by simp
  have "\<bar>?a\<bar> < 2 ^ 1024"
    using b(1,2) big by simp
  then have a: "float_of_nat n = Inr ?a"
    by (simp add: float_of_nat_def float64_def)
  have "\<bar>?p\<bar> < 2 ^ 1024"
    using b(5,6) big by simp
  then have p: "float64 (?a * ?r) = Some ?p"
    by (simp add: float64_def)
  show ?thesis
    using assms(1) b(5)
    by (simp add: train_valid_split_def a p py_int_def Let_def py_upto_floor py_from_floor)
qed


lemma sine_arrays_length:
  assumes "sine_arrays random T P n = Inr (x, y)"
  shows "length x = n" and "length y = n"
proof -
  have "0 < n" using assms by (rule sine_arrays_Inr)
  from assms sine_arrays_eq [OF this, of random T P]
  show "length x = n" and "length y = n" by auto
qed

lemma air_arrays_length:
  assumes "air_arrays column T P = Inr (x, y)"
  shows "length y = length x" and "length x \<le> 144"
  using assms by (rule air_arrays_Inr, simp)+

text \<open>
  The split points that Python computes, in the model: \<^verbatim>\<open>int(5 * (1 - 0.8))\<close> is 0,
  \<^verbatim>\<open>int(100 * (1 - 0.8))\<close> is 19, \<^verbatim>\<open>int(100 * (1 - 0.1))\<close> is 90 and
  \<^verbatim>\<open>int(100 * (1 - 0.2))\<close> is 80. The literal \<^verbatim>\<open>0.8\<close> is the float nearest to \<open>4 / 5\<close>.
\<close>

lemma split_point_examples:
  "py_int (float64_round (float64_round (real 5) * float64_round (1 - float64_round (4 / 5)))) = 0"
  "py_int (float64_round (float64_round (real 100) * float64_round (1 - float64_round (4 / 5)))) = 19"
  "py_int (float64_round (float64_round (real 100) * float64_round (1 - float64_round (1 / 10)))) = 90"
  "py_int (float64_round (float64_round (real 100) * float64_round (1 - float64_round (1 / 5)))) = 80"
  by code_simp+

lemma train_valid_split_examples:
  "train_valid_split (float64_round (4 / 5)) 5 x y =
     Inr (TrainValid (take 0 x, take 0 y) (drop 0 x, drop 0 y))"
  "train_valid_split (float64_round (4 / 5)) 100 x y =
     Inr (TrainValid (take 19 x, take 19 y) (drop 19 x, drop 19 y))"
  "train_valid_split (float64_round (1 / 10)) 100 x y =
     Inr (TrainValid (take 90 x, take 90 y) (drop 90 x, drop 90 y))"
proof -
  have a: "0 < float64_round (4 / 5)" "float64_round (4 / 5) \<le> 1"
    by code_simp+
  have b: "0 < float64_round (1 / 10)" "float64_round (1 / 10) \<le> 1"
    by code_simp+
  have n: "(5::nat) < 2 ^ 63" "(100::nat) < 2 ^ 63"
    by simp_all
  have k: "nat \<lfloor>float64_round (float64_round (real 5) * float64_round (1 - float64_round (4 / 5)))\<rfloor> = 0"
    "nat \<lfloor>float64_round (float64_round (real 100) * float64_round (1 - float64_round (4 / 5)))\<rfloor> = 19"
    "nat \<lfloor>float64_round (float64_round (real 100) * float64_round (1 - float64_round (1 / 10)))\<rfloor> = 90"
    by code_simp+
  show "train_valid_split (float64_round (4 / 5)) 5 x y =
     Inr (TrainValid (take 0 x, take 0 y) (drop 0 x, drop 0 y))"
    using train_valid_split_eq [OF a n(1), of x y] by (simp only: k)
  show "train_valid_split (float64_round (4 / 5)) 100 x y =
     Inr (TrainValid (take 19 x, take 19 y) (drop 19 x, drop 19 y))"
    using train_valid_split_eq [OF a n(2), of x y] by (simp only: k)
  show "train_valid_split (float64_round (1 / 10)) 100 x y =
     Inr (TrainValid (take 90 x, take 90 y) (drop 90 x, drop 90 y))"
    using train_valid_split_eq [OF b n(2), of x y] by (simp only: k)
qed

section \<open>The alignment of the windows\<close>

text \<open>
  C1. In the arrays of both generators the input window \<open>x[i]\<close> and the output window
  \<open>y[i]\<close> are adjacent slices of one series, in order. For the air-passenger generator the
  series is the normalised series \<open>v\<close>: \<open>x[i]\<close> is its rows \<open>i, \<dots>, i + T - 1\<close> and \<open>y[i]\<close>
  its rows \<open>i + T, \<dots>, i + T + P - 1\<close>. For the sine generator the series of example \<open>i\<close>
  is the sine curve of its own \<open>T + P\<close> points: \<open>x[i]\<close> is its first \<open>T\<close> rows and \<open>y[i]\<close> the
  \<open>P\<close> rows after them. Every window has its full width.
\<close>

theorem windows_aligned:
  "(air_arrays column T P = Inr (x, y) \<longrightarrow>
      (\<exists>v. scale_series (map (\<lambda>a. [a]) (take 144 column)) = Inr v \<and>
           (\<forall>i < length x.
               x ! i = take T (drop i v) \<and> length (x ! i) = T \<and>
               y ! i = take P (drop (i + T) v) \<and> length (y ! i) = P)))
   \<and> (sine_arrays random T P n = Inr (x', y') \<longrightarrow>
        (\<forall>i < length x'.
            let series = map (\<lambda>t. [sin t])
                           (linspace (random i * 2 * pi) (3 * pi + random i * 2 * pi) (T + P))
            in x' ! i = take T series \<and> length (x' ! i) = T \<and>
               y' ! i = take P (drop T series) \<and> length (y' ! i) = P))"
proof (intro conjI impI)
  assume "air_arrays column T P = Inr (x, y)"
  then obtain v where v: "scale_series (map (\<lambda>a. [a]) (take 144 column)) = Inr v"
    and x: "x = map (\<lambda>i. take T (drop i v)) [0..<length v - T - P]"
    and y: "y = map (\<lambda>i. take P (drop (i + T) v)) [0..<length v - T - P]"
    by (rule air_arrays_Inr)
  have "x ! i = take T (drop i v) \<and> length (x ! i) = T \<and>
        y ! i = take P (drop (i + T) v) \<and> length (y ! i) = P" if "i < length x" for i
  proof -
    from that have i: "i < length v - T - P" by (simp add: x)
    then show ?thesis by (simp add: x y)
  qed
  with v show "\<exists>v. scale_series (map (\<lambda>a. [a]) (take 144 column)) = Inr v \<and>
           (\<forall>i < length x.
               x ! i = take T (drop i v) \<and> length (x ! i) = T \<and>
               y ! i = take P (drop (i + T) v) \<and> length (y ! i) = P)"
    by blast
next
  assume s: "sine_arrays random T P n = Inr (x', y')"
  then have "0 < n" by (rule sine_arrays_Inr)
  from s sine_arrays_eq [OF this, of random T P]
  have x': "x' = map (\<lambda>k. map (\<lambda>t. [sin t])
                 (take T (linspace (random k * 2 * pi) (3 * pi + random k * 2 * pi) (T + P)))) [0..<n]"
    and y': "y' = map (\<lambda>k. map (\<lambda>t. [sin t])
                 (drop T (linspace (random k * 2 * pi) (3 * pi + random k * 2 * pi) (T + P)))) [0..<n]"
    by simp_all
  show "\<forall>i < length x'.
            let series = map (\<lambda>t. [sin t])
                           (linspace (random i * 2 * pi) (3 * pi + random i * 2 * pi) (T + P))
            in x' ! i = take T series \<and> length (x' ! i) = T \<and>
               y' ! i = take P (drop T series) \<and> length (y' ! i) = P"
    by (simp add: x' y' Let_def take_map drop_map)
qed

theorem windows_aligned_witness:
  "air_arrays [1, 2, 3, 4, 5] 2 1 =
     Inr ([[[Finite (- 1)], [Finite (- (3 / 4))]], [[Finite (- (3 / 4))], [Finite (- (1 / 2))]]],
          [[[Finite (- (1 / 2))]], [[Finite (- (1 / 4))]]])
   \<and> sine_arrays (\<lambda>k. 0) 2 1 1 =
       Inr ([map (\<lambda>t. [sin t]) (take 2 (linspace 0 (3 * pi) 3))],
            [map (\<lambda>t. [sin t]) (drop 2 (linspace 0 (3 * pi) 3))])
   \<and> (\<exists>v. scale_series (map (\<lambda>a. [a]) (take 144 [1, 2, 3, 4, 5])) = Inr v \<and>
           (\<forall>i < length [[[Finite (- 1)], [Finite (- (3 / 4))]], [[Finite (- (3 / 4))], [Finite (- (1 / 2))]]].
               [[[Finite (- 1)], [Finite (- (3 / 4))]], [[Finite (- (3 / 4))], [Finite (- (1 / 2))]]] ! i = take 2 (drop i v) \<and>
               length ([[[Finite (- 1)], [Finite (- (3 / 4))]], [[Finite (- (3 / 4))], [Finite (- (1 / 2))]]] ! i) = 2 \<and>
               [[[Finite (- (1 / 2))]], [[Finite (- (1 / 4))]]] ! i = take 1 (drop (i + 2) v) \<and>
               length ([[[Finite (- (1 / 2))]], [[Finite (- (1 / 4))]]] ! i) = 1))
   \<and> (let series = map (\<lambda>t. [sin t]) (linspace (0 * 2 * pi) (3 * pi + 0 * 2 * pi) (2 + 1))
      in [map (\<lambda>t. [sin t]) (take 2 (linspace 0 (3 * pi) 3))] ! 0 = take 2 series \<and>
         length ([map (\<lambda>t. [sin t]) (take 2 (linspace 0 (3 * pi) 3))] ! 0) = 2 \<and>
         [map (\<lambda>t. [sin t]) (drop 2 (linspace 0 (3 * pi) 3))] ! 0 = take 1 (drop 2 series) \<and>
         length ([map (\<lambda>t. [sin t]) (drop 2 (linspace 0 (3 * pi) 3))] ! 0) = 1)"
  (is "?A \<and> ?S \<and> ?CA \<and> ?CS")
proof -
  have v: "scale_series (map (\<lambda>a. [a]) (take 144 [1, 2, 3, 4, 5])) =
             Inr [[Finite (- 1)], [Finite (- (3 / 4))], [Finite (- (1 / 2))],
                  [Finite (- (1 / 4))], [Finite 0]]"
    by (simp add: scale_series_def np_max_def np_min_def fdiv_def)
  have a: ?A
    using v by (simp add: air_arrays_def air_windows_eq upt_rec [of _ "numeral _"] upt_rec [of 0 1])
  have s: ?S
    using sine_arrays_eq [of 1 "\<lambda>k. 0" 2 1] by simp
  note t = windows_aligned [of "[1, 2, 3, 4, 5]" 2 1
        "[[[Finite (- 1)], [Finite (- (3 / 4))]], [[Finite (- (3 / 4))], [Finite (- (1 / 2))]]]"
        "[[[Finite (- (1 / 2))]], [[Finite (- (1 / 4))]]]"
        "\<lambda>k. 0" 1
        "[map (\<lambda>t. [sin t]) (take 2 (linspace 0 (3 * pi) 3))]"
        "[map (\<lambda>t. [sin t]) (drop 2 (linspace 0 (3 * pi) 3))]"]
  from t a have ca: ?CA by blast
  from t s have "\<forall>i < length [map (\<lambda>t. [sin t]) (take 2 (linspace 0 (3 * pi) 3))].
            let series = map (\<lambda>t. [sin t]) (linspace (0 * 2 * pi) (3 * pi + 0 * 2 * pi) (2 + 1))
            in [map (\<lambda>t. [sin t]) (take 2 (linspace 0 (3 * pi) 3))] ! i = take 2 series \<and>
               length ([map (\<lambda>t. [sin t]) (take 2 (linspace 0 (3 * pi) 3))] ! i) = 2 \<and>
               [map (\<lambda>t. [sin t]) (drop 2 (linspace 0 (3 * pi) 3))] ! i = take 1 (drop 2 series) \<and>
               length ([map (\<lambda>t. [sin t]) (drop 2 (linspace 0 (3 * pi) 3))] ! i) = 1"
    by blast
  then have cs: ?CS by simp
  from a s ca cs show ?thesis by blast
qed

text \<open>
  C2. With at least 144 rows in the file, \<open>T \<ge> 1\<close>, \<open>P \<ge> 1\<close> and \<open>T + P \<le> 144\<close>, the
  arrays \<open>x\<close> and \<open>y\<close> of the air-passenger generator have the same number of examples, and
  no window that is kept has wrapped around the end of the series: entry \<open>j\<close> of \<open>x[i]\<close> is
  row \<open>i + j\<close> of the 144-row series and entry \<open>j\<close> of \<open>y[i]\<close> is row \<open>i + T + j\<close>, both
  below 144. Every value of \<open>x\<close> is a value of the series. So the trim removes every
  wrapped window. It removes one more: row \<open>144 - P\<close> of the stacked arrays pairs the rows
  \<open>144 - P - T, \<dots>, 144 - P - 1\<close> with the rows \<open>144 - P, \<dots>, 143\<close>, and only the
  \<open>144 - T - P\<close> pairs before it are returned.
\<close>

theorem air_windows_inside_series:
  assumes "144 \<le> length column" "1 \<le> T" "1 \<le> P" "T + P \<le> 144"
  shows "\<exists>v x y. scale_series (map (\<lambda>a. [a]) (take 144 column)) = Inr v \<and> length v = 144 \<and>
           air_arrays column T P = Inr (x, y) \<and> length x = length y \<and>
           (\<forall>i < length x. \<forall>j < T. i + j < 144 \<and> x ! i ! j = v ! (i + j)) \<and>
           (\<forall>i < length y. \<forall>j < P. i + T + j < 144 \<and> y ! i ! j = v ! (i + T + j)) \<and>
           set (concat x) \<subseteq> set v \<and>
           length x = 144 - T - P \<and>
           (\<exists>xs ys. stack_axis1 (x_rolls v T) = Inr xs \<and> stack_axis1 (y_rolls v P) = Inr ys \<and>
              rev (xs ! (144 - P)) = take T (drop (144 - P - T) v) \<and>
              ys ! (144 - P) = take P (drop (144 - P) v))"
proof -
  from assms have "column \<noteq> []" "0 < T" "0 < P" by auto
  then obtain v where v: "scale_series (map (\<lambda>a. [a]) (take 144 column)) = Inr v"
    and len: "length v = min (length column) 144"
    and a: "air_arrays column T P =
           Inr (map (\<lambda>i. take T (drop i v)) [0..<length v - T - P],
                map (\<lambda>i. take P (drop (i + T) v)) [0..<length v - T - P])"
    by (rule air_arrays_total)
  let ?x = "map (\<lambda>i. take T (drop i v)) [0..<length v - T - P]"
  let ?y = "map (\<lambda>i. take P (drop (i + T) v)) [0..<length v - T - P]"
  from len assms(1) have N: "length v = 144" by simp
  have x: "\<forall>i < length ?x. \<forall>j < T. i + j < 144 \<and> ?x ! i ! j = v ! (i + j)"
    using N by auto
  have y: "\<forall>i < length ?y. \<forall>j < P. i + T + j < 144 \<and> ?y ! i ! j = v ! (i + T + j)"
    using N by (auto simp: add.assoc)
  have s: "set (concat ?x) \<subseteq> set v"
    by (auto dest!: in_set_takeD in_set_dropD)
  have one: "\<forall>r \<in> set v. length r = 1"
    using scale_series_one_column [OF v] by simp
  let ?xs = "map (\<lambda>i. map (\<lambda>b. b ! i) (x_rolls v T)) [0..<144]"
  let ?ys = "map (\<lambda>i. map (\<lambda>b. b ! i) (y_rolls v P)) [0..<144]"
  have sx: "stack_axis1 (x_rolls v T) = Inr ?xs"
    using stack_axis1_Inr [of "x_rolls v T" 144] \<open>0 < T\<close> N by (simp add: x_rolls_eq)
  have sy: "stack_axis1 (y_rolls v P) = Inr ?ys"
    using stack_axis1_Inr [of "y_rolls v P" 144] \<open>0 < P\<close> N one
    by (simp add: y_rolls_eq roll_flat_one_column)
  have r: "144 - P - T + T = 144 - P" "144 - P < 144"
    using assms by simp_all
  have rx: "rev (?xs ! (144 - P)) = take T (drop (144 - P - T) v)"
    using x_window [of "144 - P - T" T v] r N by simp
  have "144 - P - T + T + P \<le> length v"
    using assms N by simp
  from y_window [OF one this \<open>0 < P\<close>]
  have ry: "?ys ! (144 - P) = take P (drop (144 - P) v)"
    using r by simp
  have st: "\<exists>xs ys. stack_axis1 (x_rolls v T) = Inr xs \<and> stack_axis1 (y_rolls v P) = Inr ys \<and>
              rev (xs ! (144 - P)) = take T (drop (144 - P - T) v) \<and>
              ys ! (144 - P) = take P (drop (144 - P) v)"
    using sx sy rx ry by blast
  have l: "length ?x = length ?y" "length ?x = 144 - T - P"
    using N by simp_all
  from v N a x y s l st show ?thesis by blast
qed

theorem air_windows_inside_series_witness:
  "144 \<le> length (map real [0..<144]) \<and> (1::nat) \<le> 24 \<and> (1::nat) \<le> 8 \<and> (24::nat) + 8 \<le> 144
   \<and> (\<exists>v x y. scale_series (map (\<lambda>a. [a]) (take 144 (map real [0..<144]))) = Inr v \<and>
           length v = 144 \<and>
           air_arrays (map real [0..<144]) 24 8 = Inr (x, y) \<and> length x = length y \<and>
           (\<forall>i < length x. \<forall>j < 24. i + j < 144 \<and> x ! i ! j = v ! (i + j)) \<and>
           (\<forall>i < length y. \<forall>j < 8. i + 24 + j < 144 \<and> y ! i ! j = v ! (i + 24 + j)) \<and>
           set (concat x) \<subseteq> set v \<and>
           length x = 144 - 24 - 8 \<and>
           (\<exists>xs ys. stack_axis1 (x_rolls v 24) = Inr xs \<and> stack_axis1 (y_rolls v 8) = Inr ys \<and>
              rev (xs ! (144 - 8)) = take 24 (drop (144 - 8 - 24) v) \<and>
              ys ! (144 - 8) = take 8 (drop (144 - 8) v)))"
proof -
  have h: "144 \<le> length (map real [0..<144])" "(1::nat) \<le> 24" "(1::nat) \<le> 8" "(24::nat) + 8 \<le> 144"
    by simp_all
  from h air_windows_inside_series [OF h] show ?thesis by blast
qed

text \<open>
  The trim does not remove exactly the wrapped windows. On the series of the row numbers
  \<open>0, \<dots>, 143\<close> with \<open>T = 24\<close> and \<open>P = 8\<close>, row 136 of the stacked arrays pairs the input
  window of rows \<open>112, \<dots>, 135\<close> with the output window of rows \<open>136, \<dots>, 143\<close>: neither has
  wrapped, and the trim of the last 8 rows removes the pair all the same.
\<close>

theorem air_trim_counterexample:
  "\<exists>xs ys x y.
     stack_axis1 (x_rolls (map (\<lambda>i. [i]) [0..<144]) 24) = Inr xs \<and>
     stack_axis1 (y_rolls (map (\<lambda>i. [i]) [0..<144]) 8) = Inr ys \<and>
     air_windows (map (\<lambda>i. [i]) [0..<144]) 24 8 = Inr (x, y) \<and>
     rev (xs ! 136) = map (\<lambda>i. [i]) [112..<136] \<and>
     ys ! 136 = map (\<lambda>i. [i]) [136..<144] \<and>
     rev (xs ! 136) \<notin> set x \<and> ys ! 136 \<notin> set y"
proof -
  let ?v = "map (\<lambda>i. [i]) [0..<144::nat]"
  have one: "\<forall>r \<in> set ?v. length r = 1" by simp
  have N: "length ?v = 144" by simp
  let ?xs = "map (\<lambda>i. map (\<lambda>b. b ! i) (x_rolls ?v 24)) [0..<144]"
  let ?ys = "map (\<lambda>i. map (\<lambda>b. b ! i) (y_rolls ?v 8)) [0..<144]"
  let ?x = "map (\<lambda>i. take 24 (drop i ?v)) [0..<112]"
  let ?y = "map (\<lambda>i. take 8 (drop (i + 24) ?v)) [0..<112]"
  have sx: "stack_axis1 (x_rolls ?v 24) = Inr ?xs"
    using stack_axis1_Inr [of "x_rolls ?v 24" 144] by (simp add: x_rolls_eq)
  have sy: "stack_axis1 (y_rolls ?v 8) = Inr ?ys"
    using stack_axis1_Inr [of "y_rolls ?v 8" 144] one
    by (simp add: y_rolls_eq roll_flat_one_column)
  have w: "air_windows ?v 24 8 = Inr (?x, ?y)"
    using air_windows_eq [OF one, of 24 8] by simp
  have "rev (?xs ! (112 + 24)) = take 24 (drop 112 ?v)"
    using x_window [of 112 24 ?v] by simp
  then have rx: "rev (?xs ! 136) = map (\<lambda>i. [i]) [112..<136]"
    by (simp add: take_map drop_map)
  have "?ys ! (112 + 24) = take 8 (drop (112 + 24) ?v)"
    using y_window [OF one, of 112 24 8] by simp
  then have ry: "?ys ! 136 = map (\<lambda>i. [i]) [136..<144]"
    by (simp add: take_map drop_map)
  have nx: "map (\<lambda>i. [i]) [112..<136] \<notin> set ?x"
  proof
    assume "map (\<lambda>i. [i]) [112..<136] \<in> set ?x"
    then obtain i where "i < 112" "map (\<lambda>i. [i]) [112..<136::nat] = take 24 (drop i ?v)"
      by auto
    then have "map (\<lambda>i. [i]) [112..<136::nat] ! 0 = take 24 (drop i ?v) ! 0"
      by (simp only:)
    with \<open>i < 112\<close> show False by simp
  qed
  have ny: "map (\<lambda>i. [i]) [136..<144] \<notin> set ?y"
  proof
    assume "map (\<lambda>i. [i]) [136..<144] \<in> set ?y"
    then obtain i where "i < 112" "map (\<lambda>i. [i]) [136..<144::nat] = take 8 (drop (i + 24) ?v)"
      by auto
    then have "map (\<lambda>i. [i]) [136..<144::nat] ! 0 = take 8 (drop (i + 24) ?v) ! 0"
      by (simp only:)
    with \<open>i < 112\<close> show False by simp
  qed
  from sx sy w rx ry nx ny show ?thesis
    by (intro exI [of _ ?xs] exI [of _ ?ys] exI [of _ ?x] exI [of _ ?y]) simp
qed

section \<open>The normalisation of the air-passenger series\<close>

lemma fold_max_Max: "fold max es (e::real) = Max (set (e # es))"
  by (simp only: Max.set_eq_fold)

lemma fold_min_Min: "fold min es (e::real) = Min (set (e # es))"
  by (simp only: Min.set_eq_fold)

lemma np_max_bound:
  assumes "np_max v = Inr mx" "a \<in> set (concat v)"
  shows "a \<le> mx"
proof -
  from assms obtain e es where c: "concat v = e # es" and mx: "mx = fold max es e"
    by (auto simp: np_max_def split: list.splits)
  have "a \<le> Max (set (e # es))"
    using assms(2) c by (intro Max_ge) simp_all
  then show ?thesis by (simp only: mx fold_max_Max)
qed

lemma np_min_bound:
  assumes "np_min v = Inr mn" "a \<in> set (concat v)"
  shows "mn \<le> a"
proof -
  from assms obtain e es where c: "concat v = e # es" and mn: "mn = fold min es e"
    by (auto simp: np_min_def split: list.splits)
  have "Min (set (e # es)) \<le> a"
    using assms(2) c by (intro Min_le) simp_all
  then show ?thesis by (simp only: mn fold_min_Min)
qed

text \<open>
  Line 102 subtracts the maximum, not the minimum. Whenever the series is not constant,
  every value of the scaled series is finite and lies between \<open>-1\<close> and \<open>0\<close>; a value equal to
  the minimum becomes \<open>-1\<close> and a value equal to the maximum becomes \<open>0\<close>.
\<close>

lemma scale_series_range:
  assumes "scale_series v = Inr w" "np_max v = Inr mx" "np_min v = Inr mn" "mn < mx"
    and "e \<in> set (concat w)"
  shows "\<exists>r. e = Finite r \<and> - 1 \<le> r \<and> r \<le> 0"
proof -
  have w: "w = map (map (\<lambda>a. fdiv (a - mx) (mx - mn))) v"
    using assms(1-3) by (auto elim!: scale_series_Inr)
  with assms(5) obtain a where a: "a \<in> set (concat v)" and e: "e = fdiv (a - mx) (mx - mn)"
    by auto
  have le: "a \<le> mx" and ge: "mn \<le> a"
    using np_max_bound [OF assms(2) a] np_min_bound [OF assms(3) a] by simp_all
  have d: "0 < mx - mn" using assms(4) by simp
  have "(a - mx) / (mx - mn) \<le> 0"
    using le d by (simp add: divide_le_0_iff)
  moreover have "- 1 \<le> (a - mx) / (mx - mn)"
    using ge d by (simp add: le_divide_eq)
  moreover have "e = Finite ((a - mx) / (mx - mn))"
    using d by (simp add: e fdiv_def)
  ultimately show ?thesis by blast
qed

lemma scale_series_ends:
  assumes "mn < mx"
  shows "fdiv (mn - mx) (mx - mn) = Finite (- 1)" and "fdiv (mx - mx) (mx - mn) = Finite 0"
proof -
  have "(mn - mx) / (mx - mn) = - 1"
    using assms by (simp add: divide_eq_minus_1_iff)
  then show "fdiv (mn - mx) (mx - mn) = Finite (- 1)"
    using assms by (simp add: fdiv_def)
  show "fdiv (mx - mx) (mx - mn) = Finite 0"
    using assms by (simp add: fdiv_def)
qed

text \<open>
  C3. The normalisation is not the min-max scaling to \<open>[0, 1]\<close>: on the series
  \<open>112, 118, 132\<close> (the first three values of the data set) the minimum 112 becomes \<open>-1\<close>,
  the maximum 132 becomes \<open>0\<close>, and 118 becomes \<open>-7/10\<close>, where \<open>(v - min) / (max - min)\<close>
  gives \<open>0\<close>, \<open>1\<close> and \<open>3/10\<close>.
\<close>

theorem scale_series_subtracts_max:
  "scale_series [[112], [118], [132]] =
     Inr [[Finite (- 1)], [Finite (- (7 / 10))], [Finite 0]]"
  by (simp add: scale_series_def np_max_def np_min_def fdiv_def)

section \<open>The split of the examples\<close>



text \<open>
  C5. With \<open>test_size = 0\<close>, whenever a generator has built its arrays \<open>x\<close> and \<open>y\<close>, it
  returns this one pair, with every example, and no nested train/validation pair.
\<close>

theorem no_split_returns_all:
  "(sine_arrays random T P n = Inr (x, y) \<longrightarrow>
      get_sine random T P 0 n = Inr (Whole x y) \<and> length x = n \<and> length y = n)
   \<and> (air_arrays column T P = Inr (x', y') \<longrightarrow>
        get_air_passengers column T P 0 = Inr (Whole x' y') \<and> length y' = length x')"
proof (intro conjI impI)
  assume s: "sine_arrays random T P n = Inr (x, y)"
  then show "get_sine random T P 0 n = Inr (Whole x y)"
    by (simp add: get_sine_def train_valid_split_def)
  show "length x = n" "length y = n"
    using sine_arrays_length [OF s] by simp_all
next
  assume a: "air_arrays column T P = Inr (x', y')"
  then show "get_air_passengers column T P 0 = Inr (Whole x' y')"
    by (simp add: get_air_passengers_def train_valid_split_def)
  show "length y' = length x'"
    using a by (rule air_arrays_length)
qed

theorem no_split_returns_all_witness:
  "sine_arrays (\<lambda>k. 0) 2 1 5 =
       Inr ((map (\<lambda>k. map (\<lambda>t. [sin t]) (take 2 (linspace 0 (3 * pi) 3))) [0..<5]),
            (map (\<lambda>k. map (\<lambda>t. [sin t]) (drop 2 (linspace 0 (3 * pi) 3))) [0..<5]))
   \<and> air_arrays [1, 2, 3, 4, 5] 2 1 =
       Inr ([[[Finite (- 1)], [Finite (- (3 / 4))]], [[Finite (- (3 / 4))], [Finite (- (1 / 2))]]],
            [[[Finite (- (1 / 2))]], [[Finite (- (1 / 4))]]])
   \<and> get_sine (\<lambda>k. 0) 2 1 0 5 =
       Inr (Whole (map (\<lambda>k. map (\<lambda>t. [sin t]) (take 2 (linspace 0 (3 * pi) 3))) [0..<5])
                  (map (\<lambda>k. map (\<lambda>t. [sin t]) (drop 2 (linspace 0 (3 * pi) 3))) [0..<5]))
   \<and> get_air_passengers [1, 2, 3, 4, 5] 2 1 0 =
       Inr (Whole [[[Finite (- 1)], [Finite (- (3 / 4))]], [[Finite (- (3 / 4))], [Finite (- (1 / 2))]]]
                  [[[Finite (- (1 / 2))]], [[Finite (- (1 / 4))]]])"
  (is "?S \<and> ?A \<and> ?CS \<and> ?CA")
proof -
  have v: "scale_series (map (\<lambda>a. [a]) (take 144 [1, 2, 3, 4, 5])) =
             Inr [[Finite (- 1)], [Finite (- (3 / 4))], [Finite (- (1 / 2))],
                  [Finite (- (1 / 4))], [Finite 0]]"
    by (simp add: scale_series_def np_max_def np_min_def fdiv_def)
  have a: ?A
    using v by (simp add: air_arrays_def air_windows_eq upt_rec [of _ "numeral _"] upt_rec [of 0 1])
  have s: ?S
    using sine_arrays_eq [of 5 "\<lambda>k. 0" 2 1] by simp
  note t = no_split_returns_all [of "\<lambda>k. 0" 2 1 5
        "(map (\<lambda>k. map (\<lambda>t. [sin t]) (take 2 (linspace 0 (3 * pi) 3))) [0..<5])"
        "(map (\<lambda>k. map (\<lambda>t. [sin t]) (drop 2 (linspace 0 (3 * pi) 3))) [0..<5])"
        "[1, 2, 3, 4, 5]"
        "[[[Finite (- 1)], [Finite (- (3 / 4))]], [[Finite (- (3 / 4))], [Finite (- (1 / 2))]]]"
        "[[[Finite (- (1 / 2))]], [[Finite (- (1 / 4))]]]"]
  from t s have cs: ?CS by blast
  from t a have ca: ?CA by blast
  from a s cs ca show ?thesis by blast
qed

section \<open>The channels of the sine examples\<close>

text \<open>
  C6. Whenever the sine generator builds its arrays, the loop has made \<open>n_examples\<close>
  samples of two channels, the sine and the cosine of the same points, whose phase comes
  from the example's own draw \<open>random i\<close>; and the arrays \<open>x\<close> and \<open>y\<close> both keep the first
  channel only: \<open>x[i]\<close> holds the sine of the first \<open>T\<close> points and \<open>y[i]\<close> the sine of the
  points after them.
\<close>

theorem sine_first_channel_only:
  "sine_arrays random T P n = Inr (x, y) \<longrightarrow>
     (\<exists>xs ys. sine_examples random T P n = (xs, ys) \<and>
        length xs = n \<and> length ys = n \<and> length x = n \<and> length y = n \<and>
        (\<forall>i < n.
           let ts = linspace (random i * 2 * pi) (3 * pi + random i * 2 * pi) (T + P)
           in xs ! i = map (\<lambda>t. [sin t, cos t]) (take T ts) \<and>
              ys ! i = map (\<lambda>t. [sin t, cos t]) (drop T ts) \<and>
              x ! i = map (\<lambda>t. [sin t]) (take T ts) \<and>
              y ! i = map (\<lambda>t. [sin t]) (drop T ts)))"
proof
  assume s: "sine_arrays random T P n = Inr (x, y)"
  then have "0 < n" by (rule sine_arrays_Inr)
  from s sine_arrays_eq [OF this, of random T P]
  have x: "x = map (\<lambda>k. map (\<lambda>t. [sin t])
                 (take T (linspace (random k * 2 * pi) (3 * pi + random k * 2 * pi) (T + P)))) [0..<n]"
    and y: "y = map (\<lambda>k. map (\<lambda>t. [sin t])
                 (drop T (linspace (random k * 2 * pi) (3 * pi + random k * 2 * pi) (T + P)))) [0..<n]"
    by simp_all
  let ?xs = "map (\<lambda>k. fst (sine_example T P (random k))) [0..<n]"
  let ?ys = "map (\<lambda>k. snd (sine_example T P (random k))) [0..<n]"
  have e: "sine_examples random T P n = (?xs, ?ys)"
    by (rule sine_examples_eq)
  have "\<forall>i < n.
           let ts = linspace (random i * 2 * pi) (3 * pi + random i * 2 * pi) (T + P)
           in ?xs ! i = map (\<lambda>t. [sin t, cos t]) (take T ts) \<and>
              ?ys ! i = map (\<lambda>t. [sin t, cos t]) (drop T ts) \<and>
              x ! i = map (\<lambda>t. [sin t]) (take T ts) \<and>
              y ! i = map (\<lambda>t. [sin t]) (drop T ts)"
    by (simp add: x y Let_def sine_example_eq)
  moreover have "length ?xs = n" "length ?ys = n" "length x = n" "length y = n"
    by (simp_all add: x y)
  ultimately show "\<exists>xs ys. sine_examples random T P n = (xs, ys) \<and>
        length xs = n \<and> length ys = n \<and> length x = n \<and> length y = n \<and>
        (\<forall>i < n.
           let ts = linspace (random i * 2 * pi) (3 * pi + random i * 2 * pi) (T + P)
           in xs ! i = map (\<lambda>t. [sin t, cos t]) (take T ts) \<and>
              ys ! i = map (\<lambda>t. [sin t, cos t]) (drop T ts) \<and>
              x ! i = map (\<lambda>t. [sin t]) (take T ts) \<and>
              y ! i = map (\<lambda>t. [sin t]) (drop T ts))"
    using e by blast
qed

theorem sine_first_channel_only_witness:
  "sine_arrays (\<lambda>k. 0) 2 1 1 =
       Inr ([map (\<lambda>t. [sin t]) (take 2 (linspace 0 (3 * pi) 3))],
            [map (\<lambda>t. [sin t]) (drop 2 (linspace 0 (3 * pi) 3))])
   \<and> (\<exists>xs ys. sine_examples (\<lambda>k. 0) 2 1 1 = (xs, ys) \<and>
        length xs = 1 \<and> length ys = 1 \<and>
        length [map (\<lambda>t. [sin t]) (take 2 (linspace 0 (3 * pi) 3))] = 1 \<and>
        length [map (\<lambda>t. [sin t]) (drop 2 (linspace 0 (3 * pi) 3))] = 1 \<and>
        (\<forall>i < 1.
           let ts = linspace (0 * 2 * pi) (3 * pi + 0 * 2 * pi) (2 + 1)
           in xs ! i = map (\<lambda>t. [sin t, cos t]) (take 2 ts) \<and>
              ys ! i = map (\<lambda>t. [sin t, cos t]) (drop 2 ts) \<and>
              [map (\<lambda>t. [sin t]) (take 2 (linspace 0 (3 * pi) 3))] ! i =
                map (\<lambda>t. [sin t]) (take 2 ts) \<and>
              [map (\<lambda>t. [sin t]) (drop 2 (linspace 0 (3 * pi) 3))] ! i =
                map (\<lambda>t. [sin t]) (drop 2 ts)))"
  (is "?S \<and> ?C")
proof -
  have s: ?S
    using sine_arrays_eq [of 1 "\<lambda>k. 0" 2 1] by simp
  note t = sine_first_channel_only [of "\<lambda>k. 0" 2 1 1
        "[map (\<lambda>t. [sin t]) (take 2 (linspace 0 (3 * pi) 3))]"
        "[map (\<lambda>t. [sin t]) (drop 2 (linspace 0 (3 * pi) 3))]"]
  from t s have c: ?C by blast
  from s c show ?thesis by blast
qed

text \<open>
  The input array does not keep both channels: on one example with \<open>T = 2\<close> and \<open>P = 1\<close>
  every row of \<open>x\<close> holds one value, as every row of \<open>y\<close> does.
\<close>

theorem sine_inputs_two_channels_counterexample:
  "\<exists>x y. get_sine (\<lambda>k. 0) 2 1 0 1 = Inr (Whole x y) \<and>
         map (map length) x = [[1, 1]] \<and> map (map length) x \<noteq> [[2, 2]] \<and>
         map (map length) y = [[1]]"
proof -
  have "sine_arrays (\<lambda>k. 0) 2 1 1 =
       Inr ([map (\<lambda>t. [sin t]) (take 2 (linspace 0 (3 * pi) 3))],
            [map (\<lambda>t. [sin t]) (drop 2 (linspace 0 (3 * pi) 3))])"
    using sine_arrays_eq [of 1 "\<lambda>k. 0" 2 1] by simp
  then have "get_sine (\<lambda>k. 0) 2 1 0 1 =
       Inr (Whole [map (\<lambda>t. [sin t]) (take 2 (linspace 0 (3 * pi) 3))]
                  [map (\<lambda>t. [sin t]) (drop 2 (linspace 0 (3 * pi) 3))])"
    by (simp add: get_sine_def train_valid_split_def)
  moreover have "map (map length) [map (\<lambda>t. [sin t]) (take 2 (linspace 0 (3 * pi) 3))] = [[1, 1]]"
    by (simp add: linspace_def upt_rec [of _ "numeral _"])
  moreover have "map (map length) [map (\<lambda>t. [sin t]) (drop 2 (linspace 0 (3 * pi) 3))] = [[1]]"
    by (simp add: linspace_def upt_rec [of _ "numeral _"])
  ultimately show ?thesis by simp
qed

section \<open>The shapes of the sine arrays\<close>

lemma map_const_replicate: "map (\<lambda>_. c) xs = replicate (length xs) c"
  by (induction xs) simp_all

text \<open>
  C7. With \<open>n_examples = 5\<close> and \<open>test_size = 0\<close> the sine generator returns the pair
  \<open>(x, y)\<close>, where \<open>x\<close> has shape \<open>(5, T, 1)\<close> and \<open>y\<close> has shape \<open>(5, P, 1)\<close>: five examples
  of \<open>T\<close> (of \<open>P\<close>) rows of one value each.
\<close>

theorem sine_shapes_five:
  "\<exists>x y. get_sine random T P 0 5 = Inr (Whole x y) \<and>
         length x = 5 \<and> map (map length) x = replicate 5 (replicate T 1) \<and>
         length y = 5 \<and> map (map length) y = replicate 5 (replicate P 1)"
proof -
  let ?ts = "\<lambda>k. linspace (random k * 2 * pi) (3 * pi + random k * 2 * pi) (T + P)"
  let ?x = "map (\<lambda>k. map (\<lambda>t. [sin t]) (take T (?ts k))) [0..<5]"
  let ?y = "map (\<lambda>k. map (\<lambda>t. [sin t]) (drop T (?ts k))) [0..<5]"
  have a: "sine_arrays random T P 5 = Inr (?x, ?y)"
    by (rule sine_arrays_eq) simp
  then have g: "get_sine random T P 0 5 = Inr (Whole ?x ?y)"
    by (simp add: get_sine_def train_valid_split_def)
  have sx: "map (map length) ?x = replicate 5 (replicate T 1)"
    by (simp add: comp_def map_const_replicate)
  have sy: "map (map length) ?y = replicate 5 (replicate P 1)"
    by (simp add: comp_def map_const_replicate)
  have "length ?x = 5" "length ?y = 5" by simp_all
  with g sx sy show ?thesis by blast
qed

text \<open>
  C8. With \<open>n_examples = 0\<close> the lists \<open>x\<close> and \<open>y\<close> stay empty, \<^verbatim>\<open>np.array([])\<close> has one
  dimension, and the index \<^verbatim>\<open>[:, :, 0:1]\<close> of line 72 raises \<^verbatim>\<open>IndexError\<close>: the sine
  generator returns no arrays, whatever the other arguments are.
\<close>

theorem sine_no_examples_raises:
  "get_sine random T P test_size 0 =
     Inl (IndexError ''too many indices for array: array is 1-dimensional, but 3 were indexed'')"
  by (simp add: get_sine_def sine_arrays_none)

section \<open>The stock fetcher: error translation\<close>

text \<open>
  C9. Whatever the provider does, the stock fetcher either fails with the one generic
  data-retrieval error or returns the provider's data unchanged: an exception of the
  provider call with text \<open>msg\<close> becomes \<^verbatim>\<open>ValueError\<close> with the text
  \<^verbatim>\<open>Error retrieving stock data: \<close> followed by \<open>msg\<close>; an empty result set becomes the
  same kind of error, whose text carries the empty-result message and ends with the
  ticker name; a result set that is not empty is returned as it is.
\<close>

theorem get_stock_data_cases:
  "get_stock_data ticker (Raises msg) = Inl (ValueError (''Error retrieving stock data: '' @ msg))
   \<and> (df_empty data \<longrightarrow>
        get_stock_data ticker (Returns data) =
          Inl (ValueError (''Error retrieving stock data: '' @
                           ''No data available for ticker: '' @ ticker)))
   \<and> (\<not> df_empty data \<longrightarrow> get_stock_data ticker (Returns data) = Inr data)"
  by (simp add: get_stock_data_def download_checked_def)

theorem get_stock_data_cases_witness:
  "get_stock_data ''NVDA'' (Raises ''timeout'') =
     Inl (ValueError ''Error retrieving stock data: timeout'')
   \<and> df_empty \<lparr>columns = [''Close''], records = []\<rparr>
   \<and> get_stock_data ''NVDA'' (Returns \<lparr>columns = [''Close''], records = []\<rparr>) =
       Inl (ValueError ''Error retrieving stock data: No data available for ticker: NVDA'')
   \<and> \<not> df_empty \<lparr>columns = [''Close''], records = [[1]]\<rparr>
   \<and> get_stock_data ''NVDA'' (Returns \<lparr>columns = [''Close''], records = [[1]]\<rparr>) =
       Inr \<lparr>columns = [''Close''], records = [[1]]\<rparr>"
proof -
  have e: "df_empty \<lparr>columns = [''Close''], records = []\<rparr>"
    by (simp add: df_empty_def)
  have n: "\<not> df_empty \<lparr>columns = [''Close''], records = [[1]]\<rparr>"
    by (simp add: df_empty_def)
  show ?thesis
    using e n
      get_stock_data_cases [of "''NVDA''" "''timeout''" "\<lparr>columns = [''Close''], records = []\<rparr>"]
      get_stock_data_cases [of "''NVDA''" "''timeout''" "\<lparr>columns = [''Close''], records = [[1]]\<rparr>"]
    by simp
qed

text \<open>
  C10. With at least 144 rows in the file, \<open>T \<ge> 1\<close>, \<open>P \<ge> 1\<close> and \<open>T + P \<le> 144\<close>, the
  air-passenger generator called with \<open>test_size = 0\<close> returns the pair of arrays, and each
  array has \<open>144 - T - P\<close> examples.
\<close>

theorem air_passengers_example_count:
  assumes "144 \<le> length column" "1 \<le> T" "1 \<le> P" "T + P \<le> 144"
  shows "\<exists>x y. get_air_passengers column T P 0 = Inr (Whole x y) \<and>
               length x = 144 - T - P \<and> length y = 144 - T - P"
proof -
  from assms have "column \<noteq> []" "0 < T" "0 < P" by auto
  then obtain v where len: "length v = min (length column) 144"
    and a: "air_arrays column T P =
           Inr (map (\<lambda>i. take T (drop i v)) [0..<length v - T - P],
                map (\<lambda>i. take P (drop (i + T) v)) [0..<length v - T - P])"
    by (rule air_arrays_total)
  from len assms(1) have "length v = 144" by simp
  with a show ?thesis
    by (simp add: get_air_passengers_def train_valid_split_def)
qed

theorem air_passengers_example_count_witness:
  "144 \<le> length (map real [0..<144]) \<and> (1::nat) \<le> 24 \<and> (1::nat) \<le> 8 \<and> (24::nat) + 8 \<le> 144
   \<and> (\<exists>x y. get_air_passengers (map real [0..<144]) 24 8 0 = Inr (Whole x y) \<and>
              length x = 144 - 24 - 8 \<and> length y = 144 - 24 - 8)"
proof -
  have h: "144 \<le> length (map real [0..<144])" "(1::nat) \<le> 24" "(1::nat) \<le> 8" "(24::nat) + 8 \<le> 144"
    by simp_all
  from h air_passengers_example_count [OF h] show ?thesis by blast
qed

end
